theory Spec2Isabelle
  imports Main
begin

section \<open>The version manager of npm-check-updates\<close>

text \<open>
  A shallow embedding of \<^verbatim>\<open>lib/versionmanager.js\<close>: the digit comparison, the
  extraction of the constraint prefix, the upgrade of one declaration, the
  upgradeability predicate, the upgrade of a dependency collection and the textual
  patch of the manifest.

  A JavaScript string is a sequence of UTF-16 code units. The model writes it as a
  \<^typ>\<open>string\<close>, one \<^typ>\<open>char\<close> for each code unit below 256, which covers every
  character the functions below test for.
\<close>

subsection \<open>Characters and numbers\<close>

text \<open>
  The white space of ECMAScript (\<^verbatim>\<open>WhiteSpace\<close> and \<^verbatim>\<open>LineTerminator\<close>) below 256:
  tab, line feed, vertical tab, form feed, carriage return, space and no-break space.
  \<^verbatim>\<open>parseInt\<close> and \<^verbatim>\<open>Number\<close> skip it, and \<^verbatim>\<open>\s\<close> matches it.
\<close>

definition isWhiteSpace :: "char \<Rightarrow> bool" where
  "isWhiteSpace c =
     (c \<in> {CHR 0x09, CHR 0x0A, CHR 0x0B, CHR 0x0C, CHR 0x0D, CHR 0x20, CHR 0xA0})"

definition isDecimalDigit :: "char \<Rightarrow> bool" where
  "isDecimalDigit c = (c \<in> set ''0123456789'')"

definition digitValue :: "char \<Rightarrow> int" where
  "digitValue c = of_char c - 48"

text \<open>
  A JavaScript number, as far as the version manager meets one: \<^verbatim>\<open>NaN\<close> or an
  integer. The source holds the integer as a double, which is the integer itself up to
  \<open>2\<^sup>5\<^sup>3\<close>; the model keeps the integer. Of the order on numbers the proofs
  below use only that no number is greater than itself, which holds for doubles too.
\<close>

datatype jsnum = NaN | Num int

fun js_gt :: "jsnum \<Rightarrow> jsnum \<Rightarrow> bool" where
  "js_gt (Num a) (Num b) = (b < a)"
| "js_gt _ _ = False"

text \<open>The mathematical value of a string of decimal digits.\<close>

definition mathInt :: "string \<Rightarrow> int" where
  "mathInt Z = foldl (\<lambda>a c. 10 * a + digitValue c) 0 Z"

text \<open>
  \<^verbatim>\<open>parseInt(s, 10)\<close>: leading white space is skipped, one sign is read, then the
  longest run of decimal digits; with no digit the result is \<^verbatim>\<open>NaN\<close>. Whatever
  follows the digits is ignored.
\<close>

definition parseInt :: "string \<Rightarrow> jsnum" where
  "parseInt s =
     (let S = dropWhile isWhiteSpace s;
          sign = (case S of c # _ \<Rightarrow> if c = CHR ''-'' then - 1 else 1 | [] \<Rightarrow> 1);
          S' = (case S of c # r \<Rightarrow> if c = CHR ''+'' \<or> c = CHR ''-'' then r else S | [] \<Rightarrow> S);
          Z = takeWhile isDecimalDigit S'
      in if Z = [] then NaN else Num (sign * mathInt Z))"

text \<open>
  \<^verbatim>\<open>Number(c)\<close> for a string of one code unit \<open>c\<close>, which is what \<^verbatim>\<open>isNaN\<close>
  computes first: white space alone is the number 0, a digit is its value, and every
  other single character is \<^verbatim>\<open>NaN\<close>.
\<close>

definition toNumber_char :: "char \<Rightarrow> jsnum" where
  "toNumber_char c =
     (if isWhiteSpace c then Num 0
      else if isDecimalDigit c then Num (digitValue c)
      else NaN)"

definition isNaN :: "jsnum \<Rightarrow> bool" where
  "isNaN n = (n = NaN)"

subsection \<open>Splitting and joining on the dot\<close>

text \<open>
  \<^verbatim>\<open>s.split('.')\<close> never returns the empty array: the empty string splits into one
  empty component.
\<close>

fun split_dot :: "string \<Rightarrow> string list" where
  "split_dot [] = [[]]"
| "split_dot (c # cs) =
     (if c = CHR ''.'' then [] # split_dot cs
      else (case split_dot cs of
              w # ws \<Rightarrow> (c # w) # ws
            | [] \<Rightarrow> [[c]]))"

text \<open>\<^verbatim>\<open>a.join('.')\<close>; the empty array joins to the empty string.\<close>

fun join_dot :: "string list \<Rightarrow> string" where
  "join_dot [] = []"
| "join_dot [x] = x"
| "join_dot (x # y # ys) = x @ CHR ''.'' # join_dot (y # ys)"

text \<open>\<^verbatim>\<open>s.substr(start, length)\<close> for a start inside the string.\<close>

definition substr :: "string \<Rightarrow> nat \<Rightarrow> nat \<Rightarrow> string" where
  "substr s start len = take len (drop start s)"

subsection \<open>Version digits\<close>

definition isWildDigit :: "string \<Rightarrow> bool" where
  "isWildDigit d = (d = ''x'' \<or> d = ''*'')"

text \<open>The result is 1, 0 or -1, in the order of the source's branches.\<close>

definition versionDigitComparison :: "string \<Rightarrow> string \<Rightarrow> int" where
  "versionDigitComparison d1 d2 =
     (if js_gt (parseInt d1) (parseInt d2) then 1
      else if d1 = d2 \<or> isWildDigit d1 \<or> isWildDigit d2 then 0
      else - 1)"

subsection \<open>The constraint prefix\<close>

text \<open>
  The loop of \<^verbatim>\<open>getVersionConstraints\<close> walks the code units in order, appends each
  one to \<open>constraints\<close> while the test holds and breaks at the first one that fails it.
\<close>

fun getVersionConstraints_loop :: "string \<Rightarrow> string \<Rightarrow> string" where
  "getVersionConstraints_loop constraints [] = constraints"
| "getVersionConstraints_loop constraints (c # rest) =
     (if (isNaN (toNumber_char c) \<or> c = CHR '' '') \<and> \<not> isWildDigit [c]
      then getVersionConstraints_loop (constraints @ [c]) rest
      else constraints)"

definition getVersionConstraints :: "string \<Rightarrow> string" where
  "getVersionConstraints declaration = getVersionConstraints_loop [] declaration"

subsection \<open>Upgrading one declaration\<close>

text \<open>
  The loop over \<open>currentComponents\<close>: the index runs over the current components, the
  new digit is the latest version's component at the same index, and the loop breaks
  when there is none. The result lists what the loop pushes, in order; the flag
  \<open>versionBumped\<close> is passed along.
\<close>

fun upgrade_loop :: "bool \<Rightarrow> string list \<Rightarrow> string list \<Rightarrow> string list" where
  "upgrade_loop versionBumped [] latestComponents = []"
| "upgrade_loop versionBumped (currentDigit # cs) [] = []"
| "upgrade_loop versionBumped (currentDigit # cs) (newDigit # ls) =
     (if isWildDigit currentDigit then currentDigit # upgrade_loop versionBumped cs ls
      else
        let comparison = versionDigitComparison currentDigit newDigit in
        if comparison < 0 then newDigit # upgrade_loop True cs ls
        else if comparison > 0 \<and> \<not> versionBumped then newDigit # upgrade_loop versionBumped cs ls
        else if versionBumped then newDigit # upgrade_loop versionBumped cs ls
        else currentDigit # upgrade_loop versionBumped cs ls)"

text \<open>
  The latest version is \<open>None\<close> when the caller passes \<^verbatim>\<open>undefined\<close>; that and the
  empty string are the falsy values the first test returns on.
\<close>

definition upgradeDependencyDeclaration :: "string \<Rightarrow> string option \<Rightarrow> string" where
  "upgradeDependencyDeclaration declaration latestVersion =
     (case latestVersion of
        None \<Rightarrow> declaration
      | Some latest \<Rightarrow>
          if latest = [] then declaration
          else
            let newDeclaration = getVersionConstraints declaration;
                body = substr declaration (length newDeclaration) (length declaration);
                currentComponents = split_dot body
            in (case currentComponents of
                  [] \<Rightarrow> newDeclaration
                | first # _ \<Rightarrow>
                    if first = [] then newDeclaration
                    else newDeclaration @
                      join_dot (upgrade_loop False currentComponents (split_dot latest))))"

subsection \<open>The upgradeability predicate\<close>

text \<open>
  The semver library is not part of the version manager; its three functions are
  parameters of the model. \<open>validRange\<close> returns the normalised range, or
  \<^verbatim>\<open>null\<close> (here \<open>None\<close>) for a string that is no range, and never throws.
  \<open>satisfies\<close> and \<open>ltr\<close> build a version object from their first argument and may
  throw on one that is no version; the latest version they receive is \<open>None\<close> when
  the caller holds \<^verbatim>\<open>undefined\<close>.
\<close>

datatype js_error = TypeError

record semver =
  validRange :: "string \<Rightarrow> string option"
  satisfies :: "string option \<Rightarrow> string \<Rightarrow> js_error + bool"
  ltr :: "string option \<Rightarrow> string \<Rightarrow> js_error + bool"

text \<open>Truthiness of a string or \<^verbatim>\<open>null\<close>: only \<^verbatim>\<open>null\<close> and the empty string are falsy.\<close>

definition truthy :: "string option \<Rightarrow> bool" where
  "truthy v = (case v of None \<Rightarrow> False | Some s \<Rightarrow> s \<noteq> [])"

text \<open>
  Both library calls are made before the result is computed, \<open>satisfies\<close> first, so
  a throw of either one leaves \<open>isUpgradeable\<close>.
\<close>

definition isUpgradeable :: "semver \<Rightarrow> string \<Rightarrow> string option \<Rightarrow> js_error + bool" where
  "isUpgradeable sv current latest =
     (if \<not> truthy (validRange sv current) then Inr False
      else
        let unconstrainedCurrent =
              substr current (length (getVersionConstraints current)) (length current)
        in if \<not> truthy (Some unconstrainedCurrent) then Inr False
           else (case satisfies sv latest unconstrainedCurrent of
                   Inl e \<Rightarrow> Inl e
                 | Inr isLatest \<Rightarrow>
                     (case ltr sv latest unconstrainedCurrent of
                        Inl e \<Rightarrow> Inl e
                      | Inr isBeyond \<Rightarrow> Inr (\<not> isLatest \<and> \<not> isBeyond))))"

subsection \<open>Upgrading a dependency collection\<close>

text \<open>
  An object of the source is the list of its keys with their values, in the order in
  which the object enumerates them; \<open>map_of\<close> is the lookup \<^verbatim>\<open>latestVersions[packageName]\<close>,
  which is \<^verbatim>\<open>undefined\<close> (\<open>None\<close>) for a name the object does not have.

  The chain of \<open>upgradeDependencies\<close> pairs every current declaration with the latest
  version of its name, \<^verbatim>\<open>pick\<close>s the pairs on which \<open>isUpgradeable\<close> is true (calling it
  on every pair, so that a throw of any call leaves the chain), and maps what it picked
  through \<open>upgradeDependencyDeclaration\<close>.
\<close>

fun pick_isUpgradeable ::
  "semver \<Rightarrow> (string \<times> string \<times> string option) list \<Rightarrow>
   js_error + (string \<times> string \<times> string option) list" where
  "pick_isUpgradeable sv [] = Inr []"
| "pick_isUpgradeable sv ((packageName, current, latest) # rest) =
     (case isUpgradeable sv current latest of
        Inl e \<Rightarrow> Inl e
      | Inr upgradeable \<Rightarrow>
          (case pick_isUpgradeable sv rest of
             Inl e \<Rightarrow> Inl e
           | Inr picked \<Rightarrow>
               Inr (if upgradeable then (packageName, current, latest) # picked else picked)))"

definition upgradeDependencies ::
  "semver \<Rightarrow> (string \<times> string) list \<Rightarrow> (string \<times> string) list \<Rightarrow>
   js_error + (string \<times> string) list" where
  "upgradeDependencies sv currentDependencies latestVersions =
     (let pairs = map (\<lambda>(packageName, current).
                    (packageName, current, map_of latestVersions packageName))
                  currentDependencies
      in case pick_isUpgradeable sv pairs of
           Inl e \<Rightarrow> Inl e
         | Inr picked \<Rightarrow>
             Inr (map (\<lambda>(packageName, current, latest).
                    (packageName, upgradeDependencyDeclaration current latest)) picked))"

subsection \<open>Patching the manifest text\<close>

text \<open>
  \<open>escapeRegexp\<close> puts a backslash in front of every character of the class
  \<^verbatim>\<open>[-\/\\^$*+?.()|[\]{}]\<close>.
\<close>

definition regexpSpecial :: "char \<Rightarrow> bool" where
  "regexpSpecial c = (c \<in> set ''-/^$*+?.()|[]{}'' \<or> c = CHR 0x5C)"

fun escapeRegexp :: "string \<Rightarrow> string" where
  "escapeRegexp [] = []"
| "escapeRegexp (c # s) =
     (if regexpSpecial c then CHR 0x5C # c # escapeRegexp s else c # escapeRegexp s)"

text \<open>
  The regular expressions of \<open>updatePackageData\<close> are sequences of three kinds of
  terms: a literal character, the dot (any character but a line terminator) and
  \<^verbatim>\<open>\s*\<close> (white space, as much as possible). \<open>compileRegExp\<close> reads a pattern
  of that fragment as \<^verbatim>\<open>new RegExp\<close> does: a backslash in front of a syntax character,
  a slash or a hyphen makes it literal, \<^verbatim>\<open>\s*\<close> is the white space term, a dot is the
  dot, and every character that is no syntax character is literal. On any other
  pattern (one with a quantifier, a group, a class, an anchor or another escape, which
  only a package name can bring in) the result is \<open>None\<close>: the model does not follow
  the source there.
\<close>

datatype rx_term = Lit char | AnyChar | WhiteSpaceStar

definition syntaxCharacter :: "char \<Rightarrow> bool" where
  "syntaxCharacter c = (c \<in> set ''^$.*+?()[]{}|'' \<or> c = CHR 0x5C)"

definition isLineTerminator :: "char \<Rightarrow> bool" where
  "isLineTerminator c = (c \<in> {CHR 0x0A, CHR 0x0D})"

fun compileRegExp :: "string \<Rightarrow> rx_term list option" where
  "compileRegExp [] = Some []"
| "compileRegExp (c # p) =
     (if c = CHR 0x5C then
        (case p of
           [] \<Rightarrow> None
         | e # p' \<Rightarrow>
             if syntaxCharacter e \<or> e = CHR ''/'' \<or> e = CHR ''-''
             then map_option (Cons (Lit e)) (compileRegExp p')
             else if e = CHR ''s'' then
               (case p' of
                  [] \<Rightarrow> None
                | q # p'' \<Rightarrow>
                    if q = CHR ''*'' then map_option (Cons WhiteSpaceStar) (compileRegExp p'')
                    else None)
             else None)
      else if c = CHR ''.'' then map_option (Cons AnyChar) (compileRegExp p)
      else if syntaxCharacter c then None
      else map_option (Cons (Lit c)) (compileRegExp p))"

text \<open>
  A match of the terms at the start of a string, as the backtracking matcher finds it:
  the result is what follows the match. \<^verbatim>\<open>\s*\<close> first takes all the white space it
  can and gives it back one character at a time while the rest of the pattern fails.
\<close>

fun regExpMatch :: "rx_term list \<Rightarrow> string \<Rightarrow> string option" where
  "regExpMatch [] s = Some s"
| "regExpMatch (Lit c # ts) [] = None"
| "regExpMatch (Lit c # ts) (x # xs) = (if x = c then regExpMatch ts xs else None)"
| "regExpMatch (AnyChar # ts) [] = None"
| "regExpMatch (AnyChar # ts) (x # xs) =
     (if isLineTerminator x then None else regExpMatch ts xs)"
| "regExpMatch (WhiteSpaceStar # ts) [] = regExpMatch ts []"
| "regExpMatch (WhiteSpaceStar # ts) (x # xs) =
     (if isWhiteSpace x then
        (case regExpMatch (WhiteSpaceStar # ts) xs of
           Some rest \<Rightarrow> Some rest
         | None \<Rightarrow> regExpMatch ts (x # xs))
      else regExpMatch ts (x # xs))"

text \<open>
  \<^verbatim>\<open>GetSubstitution\<close> for a pattern without groups: in the replacement text,
  \<^verbatim>\<open>$$\<close> is a dollar, \<^verbatim>\<open>$&\<close> the match, \<^verbatim>\<open>$`\<close> the text before the match and
  \<^verbatim>\<open>$'\<close> the text after it; every other character, a dollar in front of anything
  else included, stands for itself.
\<close>

fun getSubstitution :: "string \<Rightarrow> string \<Rightarrow> string \<Rightarrow> string \<Rightarrow> string" where
  "getSubstitution matched preceding following [] = []"
| "getSubstitution matched preceding following [c] = [c]"
| "getSubstitution matched preceding following (c # d # template) =
     (if c = CHR ''$'' then
        (if d = CHR ''$'' then CHR ''$'' # getSubstitution matched preceding following template
         else if d = CHR ''&'' then matched @ getSubstitution matched preceding following template
         else if d = CHR 0x60 then preceding @ getSubstitution matched preceding following template
         else if d = CHR 0x27 then following @ getSubstitution matched preceding following template
         else c # getSubstitution matched preceding following (d # template))
      else c # getSubstitution matched preceding following (d # template))"

text \<open>
  \<^verbatim>\<open>data.replace(regExp, template)\<close> for a global expression: the text is searched from
  left to right, every match is replaced by the substitution of the template, and the
  search goes on behind the match (one character further after an empty match).
  \<open>preceding\<close> is the text in front of the position reached.
\<close>

fun replace_from :: "rx_term list \<Rightarrow> string \<Rightarrow> string \<Rightarrow> string \<Rightarrow> string" where
  "replace_from regExp template preceding [] =
     (case regExpMatch regExp [] of
        Some rest \<Rightarrow> getSubstitution [] preceding [] template
      | None \<Rightarrow> [])"
| "replace_from regExp template preceding (c # s) =
     (case regExpMatch regExp (c # s) of
        None \<Rightarrow> c # replace_from regExp template (preceding @ [c]) s
      | Some rest \<Rightarrow>
          if length rest < length (c # s) then
            getSubstitution (take (length (c # s) - length rest) (c # s)) preceding rest template @
              replace_from regExp template
                (preceding @ take (length (c # s) - length rest) (c # s)) rest
          else
            getSubstitution [] preceding (c # s) template @
              c # replace_from regExp template (preceding @ [c]) s)"

definition replace_global :: "string \<Rightarrow> rx_term list \<Rightarrow> string \<Rightarrow> string" where
  "replace_global data regExp template = replace_from regExp template [] data"

text \<open>
  A property read on an object of the source also finds the members that the object
  inherits from \<^verbatim>\<open>Object.prototype\<close>; these are their names.
\<close>

definition objectPrototypeMember :: "string \<Rightarrow> bool" where
  "objectPrototypeMember name =
     (name \<in> set [''constructor'', ''toString'', ''toLocaleString'', ''valueOf'',
        ''hasOwnProperty'', ''isPrototypeOf'', ''propertyIsEnumerable'', ''__proto__'',
        ''__defineGetter__'', ''__defineSetter__'', ''__lookupGetter__'',
        ''__lookupSetter__''])"

text \<open>
  \<^verbatim>\<open>oldDependencies[dependency]\<close> as the string that \<^verbatim>\<open>+ '"'\<close> is appended to: the
  value of the object's own entry; without one, the text \<^verbatim>\<open>undefined\<close> for a name
  that \<^verbatim>\<open>Object.prototype\<close> does not have either. For an inherited member the read
  gives a function or an object whose text depends on the engine; the result is
  \<open>None\<close>, and the model does not follow the source there.
\<close>

definition oldDependency :: "(string \<times> string) list \<Rightarrow> string \<Rightarrow> string option" where
  "oldDependency oldDependencies dependency =
     (case map_of oldDependencies dependency of
        Some v \<Rightarrow> Some v
      | None \<Rightarrow> if objectPrototypeMember dependency then None else Some ''undefined'')"

text \<open>
  The loop runs over the entries of \<open>newDependencies\<close> in their order; each entry
  patches the text the entries before it have left. The result is \<open>None\<close> where the
  model does not follow the source: on a read of an inherited member, and on an
  expression outside the fragment.
\<close>

fun updatePackageData ::
  "string \<Rightarrow> (string \<times> string) list \<Rightarrow> (string \<times> string) list \<Rightarrow> string option" where
  "updatePackageData data oldDependencies [] = Some data"
| "updatePackageData data oldDependencies ((dependency, newDeclaration) # rest) =
     (case oldDependency oldDependencies dependency of
        None \<Rightarrow> None
      | Some oldDeclaration \<Rightarrow>
          let expression =
                CHR 0x22 # dependency @ [CHR 0x22, CHR 0x5C, CHR ''s'', CHR ''*'', CHR '':'',
                  CHR 0x5C, CHR ''s'', CHR ''*'', CHR 0x22] @
                escapeRegexp (oldDeclaration @ [CHR 0x22])
          in case compileRegExp expression of
               None \<Rightarrow> None
             | Some regExp \<Rightarrow>
                 updatePackageData
                   (replace_global data regExp
                      (CHR 0x22 # dependency @ [CHR 0x22, CHR '':'', CHR '' ''] @
                       CHR 0x22 # newDeclaration @ [CHR 0x22]))
                   oldDependencies rest)"

subsection \<open>Vocabulary of the statements\<close>

text \<open>
  The declaration without its constraint prefix, as \<open>upgradeDependencyDeclaration\<close>
  and \<open>isUpgradeable\<close> both compute it.
\<close>

definition declarationBody :: "string \<Rightarrow> string" where
  "declarationBody d = substr d (length (getVersionConstraints d)) (length d)"

text \<open>The test of the loop in \<open>getVersionConstraints\<close>, on one code unit.\<close>

definition constraintChar :: "char \<Rightarrow> bool" where
  "constraintChar c = ((isNaN (toNumber_char c) \<or> c = CHR '' '') \<and> \<not> isWildDigit [c])"

text \<open>Both components are numbers for \<^verbatim>\<open>parseInt\<close>, and the first is at most the second.\<close>

definition numerically_le :: "string \<Rightarrow> string \<Rightarrow> bool" where
  "numerically_le d1 d2 =
     (case (parseInt d1, parseInt d2) of (Num a, Num b) \<Rightarrow> a \<le> b | _ \<Rightarrow> False)"

text \<open>
  A table of the answers node-semver gives at the inputs of the examples below:
  \<^verbatim>\<open>1.2.3-beta\<close>, \<^verbatim>\<open>1.0.0\<close> and \<^verbatim>\<open>2.0.0\<close> are ranges and the tag \<^verbatim>\<open>latest\<close> is
  not; \<^verbatim>\<open>1.2.3-beta.2\<close> neither satisfies the range \<^verbatim>\<open>1.2.3-beta\<close> nor lies below
  it; \<^verbatim>\<open>2.0.0\<close> neither satisfies \<^verbatim>\<open>1.0.0\<close> nor lies below it; \<^verbatim>\<open>1.0.0\<close> does not
  satisfy \<^verbatim>\<open>2.0.0\<close> and lies below it. On \<^verbatim>\<open>undefined\<close> in the place of the version,
  \<^verbatim>\<open>satisfies\<close> answers false and \<^verbatim>\<open>ltr\<close> throws a \<^verbatim>\<open>TypeError\<close> (it builds a
  version object first). The table holds no other answer: the examples use it at
  these inputs only.
\<close>

definition semver_sample :: semver where
  "semver_sample =
     \<lparr> validRange =
         (\<lambda>r. if r = ''1.2.3-beta'' \<or> r = ''1.0.0'' \<or> r = ''2.0.0'' then Some r else None),
       satisfies =
         (\<lambda>v r. if v = None then Inr False
                else if (v, r) = (Some ''1.2.3-beta.2'', ''1.2.3-beta'') then Inr False
                else if (v, r) = (Some ''2.0.0'', ''1.0.0'') then Inr False
                else if (v, r) = (Some ''1.0.0'', ''2.0.0'') then Inr False
                else Inl TypeError),
       ltr =
         (\<lambda>v r. if v = None then Inl TypeError
                else if (v, r) = (Some ''1.2.3-beta.2'', ''1.2.3-beta'') then Inr False
                else if (v, r) = (Some ''2.0.0'', ''1.0.0'') then Inr False
                else if (v, r) = (Some ''1.0.0'', ''2.0.0'') then Inr True
                else Inl TypeError) \<rparr>"

text \<open>
  The words of the manifest patch: an occurrence of an entry at the start of a text is
  the name in double quotes, white space, a colon, white space and the old declaration
  in double quotes; \<open>spec_entry_at\<close> returns what follows the occurrence.
  \<open>spec_patch\<close> rewrites one entry: from left to right, every occurrence becomes the
  name in double quotes, a colon, a space and the new declaration in double quotes, and
  every other character stays.
\<close>

fun expect :: "string \<Rightarrow> string \<Rightarrow> string option" where
  "expect [] s = Some s"
| "expect (c # lit) [] = None"
| "expect (c # lit) (x # xs) = (if x = c then expect lit xs else None)"

definition spec_entry_at :: "string \<Rightarrow> string \<Rightarrow> string \<Rightarrow> string option" where
  "spec_entry_at name old s =
     (case expect (CHR 0x22 # name @ [CHR 0x22]) s of
        None \<Rightarrow> None
      | Some r1 \<Rightarrow>
          (case expect '':'' (dropWhile isWhiteSpace r1) of
             None \<Rightarrow> None
           | Some r2 \<Rightarrow> expect (CHR 0x22 # old @ [CHR 0x22]) (dropWhile isWhiteSpace r2)))"

lemma expect_Some: "expect lit s = Some r \<Longrightarrow> s = lit @ r"
  by (induction lit s rule: expect.induct) (auto split: if_splits)

lemma spec_entry_at_shorter: "spec_entry_at name old s = Some r \<Longrightarrow> length r < length s"
proof -
  assume a: "spec_entry_at name old s = Some r"
  then obtain r1 where r1: "expect (CHR 0x22 # name @ [CHR 0x22]) s = Some r1"
    by (auto simp add: spec_entry_at_def split: option.splits)
  then obtain r2 where r2: "expect '':'' (dropWhile isWhiteSpace r1) = Some r2"
    and r3: "expect (CHR 0x22 # old @ [CHR 0x22]) (dropWhile isWhiteSpace r2) = Some r"
    using a by (auto simp add: spec_entry_at_def split: option.splits)
  have "length r1 < length s" using expect_Some [OF r1] by simp
  moreover have "length r2 \<le> length r1"
    using expect_Some [OF r2] length_dropWhile_le [of isWhiteSpace r1] by simp
  moreover have "length r \<le> length r2"
    using expect_Some [OF r3] length_dropWhile_le [of isWhiteSpace r2] by simp
  ultimately show ?thesis by simp
qed

function spec_patch :: "string \<Rightarrow> string \<Rightarrow> string \<Rightarrow> string \<Rightarrow> string" where
  "spec_patch name old new [] = []"
| "spec_patch name old new (c # s) =
     (case spec_entry_at name old (c # s) of
        None \<Rightarrow> c # spec_patch name old new s
      | Some rest \<Rightarrow>
          CHR 0x22 # name @ [CHR 0x22, CHR '':'', CHR '' ''] @ CHR 0x22 # new @ [CHR 0x22] @
            spec_patch name old new rest)"
  by pat_completeness auto
termination
  by (relation "measure (\<lambda>(name, old, new, s). length s)")
    (auto dest: spec_entry_at_shorter)

text \<open>The terms that the expression of one entry compiles to.\<close>

definition entry_regExp :: "string \<Rightarrow> string \<Rightarrow> rx_term list" where
  "entry_regExp name old =
     map Lit (CHR 0x22 # name @ [CHR 0x22]) @ WhiteSpaceStar # Lit (CHR '':'') #
     WhiteSpaceStar # map Lit (CHR 0x22 # old @ [CHR 0x22])"

section \<open>Lemmas\<close>

subsection \<open>Prefix and body\<close>

lemma split_dot_not_Nil: "split_dot s \<noteq> []"
  by (induction s) (auto split: list.splits)

lemma getVersionConstraints_loop_takeWhile:
  "getVersionConstraints_loop acc s = acc @ takeWhile constraintChar s"
  by (induction s arbitrary: acc) (simp_all add: constraintChar_def)

lemma getVersionConstraints_takeWhile:
  "getVersionConstraints s = takeWhile constraintChar s"
  by (simp add: getVersionConstraints_def getVersionConstraints_loop_takeWhile)

lemma space_not_digit: "\<not> isDecimalDigit (CHR '' '')"
  by (simp add: isDecimalDigit_def)

lemma toNumber_char_NaN: "toNumber_char c = NaN \<longleftrightarrow> \<not> isWhiteSpace c \<and> \<not> isDecimalDigit c"
  by (simp add: toNumber_char_def)

lemma isWildDigit_single: "isWildDigit [c] \<longleftrightarrow> c = CHR ''x'' \<or> c = CHR ''*''"
  by (simp add: isWildDigit_def)

lemma constraintChar_iff:
  "constraintChar c \<longleftrightarrow>
     \<not> isDecimalDigit c \<and> c \<noteq> CHR ''x'' \<and> c \<noteq> CHR ''*'' \<and> (isWhiteSpace c \<longrightarrow> c = CHR '' '')"
  unfolding constraintChar_def isNaN_def toNumber_char_NaN isWildDigit_single
  using space_not_digit by blast

lemma body_eq_dropWhile:
  "substr d (length (getVersionConstraints d)) (length d) = dropWhile constraintChar d"
proof -
  have "drop (length (takeWhile constraintChar d)) d = dropWhile constraintChar d"
    by (rule dropWhile_eq_drop [symmetric])
  moreover have "length (dropWhile constraintChar d) \<le> length d"
    by (rule length_dropWhile_le)
  ultimately show ?thesis
    by (simp add: substr_def getVersionConstraints_takeWhile)
qed

lemma declaration_split:
  "getVersionConstraints d @ substr d (length (getVersionConstraints d)) (length d) = d"
  by (simp add: body_eq_dropWhile) (simp add: getVersionConstraints_takeWhile)

lemma parseInt_Nil: "parseInt [] = NaN"
  by (simp add: parseInt_def)

lemma parseInt_wild: "isWildDigit d \<Longrightarrow> parseInt d = NaN"
  by (auto simp add: isWildDigit_def parseInt_def isWhiteSpace_def isDecimalDigit_def)

lemma js_gt_irrefl: "\<not> js_gt n n"
  by (cases n) simp_all

lemma versionDigitComparison_same: "versionDigitComparison d d = 0"
  by (simp add: versionDigitComparison_def js_gt_irrefl)

lemma versionDigitComparison_zero:
  "versionDigitComparison d1 d2 = 0 \<Longrightarrow> d1 = d2 \<or> isWildDigit d1 \<or> isWildDigit d2"
  by (simp add: versionDigitComparison_def split: if_splits)

lemma upgrade_loop_no_wild:
  "\<forall>(c, l) \<in> set (zip cs ls). \<not> isWildDigit c \<and> \<not> isWildDigit l \<Longrightarrow>
   upgrade_loop b cs ls = take (min (length cs) (length ls)) ls"
proof (induction b cs ls rule: upgrade_loop.induct)
  case (3 b c cs l ls)
  have nw: "\<not> isWildDigit c" "\<not> isWildDigit l" using "3.prems" by auto
  have rest: "\<forall>(c, l) \<in> set (zip cs ls). \<not> isWildDigit c \<and> \<not> isWildDigit l"
    using "3.prems" by auto
  have eq: "versionDigitComparison c l = 0 \<Longrightarrow> c = l"
    using versionDigitComparison_zero nw by blast
  show ?case using nw rest eq "3.IH"
    by (auto simp add: Let_def)
qed simp_all

lemma numerically_le_not_wild:
  "numerically_le c l \<Longrightarrow> \<not> isWildDigit c \<and> \<not> isWildDigit l"
  by (auto simp add: numerically_le_def parseInt_wild split: jsnum.splits)

lemma numerically_le_not_Nil: "numerically_le c l \<Longrightarrow> c \<noteq> []"
  by (auto simp add: numerically_le_def parseInt_Nil)

lemma split_dot_no_dot: "w \<in> set (split_dot s) \<Longrightarrow> CHR ''.'' \<notin> set w"
proof (induction s arbitrary: w)
  case Nil
  then show ?case by simp
next
  case (Cons c s)
  then show ?case
    by (cases "split_dot s") (auto split: if_splits)
qed

lemma split_dot_plain: "CHR ''.'' \<notin> set x \<Longrightarrow> split_dot x = [x]"
  by (induction x) auto

lemma split_dot_append:
  "CHR ''.'' \<notin> set x \<Longrightarrow> split_dot (x @ CHR ''.'' # s) = x # split_dot s"
  by (induction x) auto

lemma split_dot_join_dot:
  "ps \<noteq> [] \<Longrightarrow> \<forall>p \<in> set ps. CHR ''.'' \<notin> set p \<Longrightarrow> split_dot (join_dot ps) = ps"
proof (induction ps rule: join_dot.induct)
  case 1
  then show ?case by simp
next
  case (2 x)
  then show ?case by (simp add: split_dot_plain)
next
  case (3 x y ys)
  then show ?case by (simp add: split_dot_append)
qed

lemma join_dot_split_dot: "join_dot (split_dot s) = s"
proof (induction s)
  case Nil
  then show ?case by simp
next
  case (Cons c s)
  obtain w ws where w: "split_dot s = w # ws"
    using split_dot_not_Nil [of s] by (cases "split_dot s") auto
  show ?case
  proof (cases "c = CHR ''.''")
    case True
    then show ?thesis using Cons w by simp
  next
    case False
    then show ?thesis using Cons w by (cases ws) auto
  qed
qed

lemma upgrade_loop_length:
  "length (upgrade_loop b cs ls) = min (length cs) (length ls)"
  by (induction b cs ls rule: upgrade_loop.induct) (simp_all add: Let_def)

lemma upgrade_loop_nth:
  "i < min (length cs) (length ls) \<Longrightarrow>
   upgrade_loop b cs ls ! i = cs ! i \<or> upgrade_loop b cs ls ! i = ls ! i"
proof (induction b cs ls arbitrary: i rule: upgrade_loop.induct)
  case (3 b c cs l ls)
  then show ?case
    by (cases i) (simp_all add: Let_def)
qed simp_all

lemma upgrade_loop_wild:
  "i < min (length cs) (length ls) \<Longrightarrow> isWildDigit (cs ! i) \<Longrightarrow>
   upgrade_loop b cs ls ! i = cs ! i"
proof (induction b cs ls arbitrary: i rule: upgrade_loop.induct)
  case (3 b c cs l ls)
  then show ?case
    by (cases i) (simp_all add: Let_def)
qed simp_all

lemma upgrade_loop_set:
  "set (upgrade_loop b cs ls) \<subseteq> set cs \<union> set ls"
proof
  fix x assume "x \<in> set (upgrade_loop b cs ls)"
  then obtain i where i: "i < length (upgrade_loop b cs ls)" "upgrade_loop b cs ls ! i = x"
    by (auto simp add: in_set_conv_nth)
  then have m: "i < min (length cs) (length ls)" by (simp add: upgrade_loop_length)
  then have "x = cs ! i \<or> x = ls ! i" using upgrade_loop_nth [OF m, of b] i by auto
  then show "x \<in> set cs \<union> set ls" using m by auto
qed

lemma upgrade_loop_same_head:
  "upgrade_loop False (x # xs) (x # ls) = x # upgrade_loop False xs ls"
  by (simp add: versionDigitComparison_same)

lemma upgrade_loop_idem:
  "upgrade_loop False (upgrade_loop b cs ls) ls = upgrade_loop b cs ls"
proof (induction b cs ls rule: upgrade_loop.induct)
  case (3 b c cs l ls)
  show ?case
  proof (cases "isWildDigit c")
    case True
    then show ?thesis using "3.IH"(1) by simp
  next
    case False
    note nw = this
    show ?thesis
    proof (cases "versionDigitComparison c l < 0")
      case True
      then show ?thesis using nw "3.IH"(2) by (simp add: versionDigitComparison_same)
    next
      case False
      note nlt = this
      show ?thesis
      proof (cases "0 < versionDigitComparison c l \<and> \<not> b")
        case True
        then show ?thesis using nw nlt "3.IH"(3) by (simp add: versionDigitComparison_same)
      next
        case False
        note ngt = this
        show ?thesis
        proof (cases b)
          case True
          then show ?thesis using nw nlt ngt "3.IH"(4) by (simp add: versionDigitComparison_same)
        next
          case False
          then have "versionDigitComparison c l = 0" using nlt ngt by simp
          then show ?thesis using nw nlt ngt False "3.IH"(5) by simp
        qed
      qed
    qed
  qed
qed simp_all

lemma declarationBody_dropWhile: "declarationBody d = dropWhile constraintChar d"
  by (simp add: declarationBody_def body_eq_dropWhile)

lemma declarationBody_drop: "declarationBody d = drop (length (getVersionConstraints d)) d"
  by (simp add: declarationBody_dropWhile getVersionConstraints_takeWhile dropWhile_eq_drop)

lemma constraintChar_dot: "constraintChar (CHR ''.'')"
  by (simp add: constraintChar_iff isDecimalDigit_def isWhiteSpace_def)

lemma declarationBody_hd: "declarationBody d \<noteq> [] \<Longrightarrow> \<not> constraintChar (hd (declarationBody d))"
  unfolding declarationBody_dropWhile by (rule hd_dropWhile)

lemma getVersionConstraints_Nil_hd:
  "getVersionConstraints t = [] \<Longrightarrow> t \<noteq> [] \<Longrightarrow> \<not> constraintChar (hd t)"
  by (cases t) (auto simp add: getVersionConstraints_takeWhile split: if_splits)

lemma split_dot_hd:
  "s \<noteq> [] \<Longrightarrow> hd s \<noteq> CHR ''.'' \<Longrightarrow> \<exists>w ws. split_dot s = w # ws \<and> w \<noteq> [] \<and> hd w = hd s"
  by (cases s) (auto split: list.splits)

lemma join_dot_hd: "p \<noteq> [] \<Longrightarrow> join_dot (p # ps) \<noteq> [] \<and> hd (join_dot (p # ps)) = hd p"
  by (cases ps) auto

lemma getVersionConstraints_append:
  "rest = [] \<or> \<not> constraintChar (hd rest) \<Longrightarrow>
   getVersionConstraints (getVersionConstraints d @ rest) = getVersionConstraints d"
proof -
  assume r: "rest = [] \<or> \<not> constraintChar (hd rest)"
  have all: "\<forall>c \<in> set (takeWhile constraintChar d). constraintChar c"
    by (auto dest: set_takeWhileD)
  have "takeWhile constraintChar rest = []"
    using r by (cases rest) auto
  then show ?thesis
    using all by (simp add: getVersionConstraints_takeWhile)
qed

lemma upgrade_empty_body:
  "declarationBody d = [] \<Longrightarrow> upgradeDependencyDeclaration d t = d"
proof -
  assume e: "declarationBody d = []"
  then have "getVersionConstraints d = d"
    using declaration_split [of d] by (simp add: declarationBody_def)
  then show ?thesis using e
    by (simp add: upgradeDependencyDeclaration_def declarationBody_def split: option.splits)
qed

lemma upgrade_nonempty_body:
  assumes t: "t \<noteq> []" and b: "declarationBody d \<noteq> []"
  shows "upgradeDependencyDeclaration d (Some t) =
           getVersionConstraints d @
           join_dot (upgrade_loop False (split_dot (declarationBody d)) (split_dot t))"
proof -
  have "hd (declarationBody d) \<noteq> CHR ''.''"
    using declarationBody_hd [OF b] constraintChar_dot by auto
  then obtain w ws where "split_dot (declarationBody d) = w # ws" "w \<noteq> []"
    using split_dot_hd [OF b] by blast
  then show ?thesis using t
    by (simp add: upgradeDependencyDeclaration_def declarationBody_def [symmetric])
qed

lemma upgrade_result_shape:
  assumes t: "t \<noteq> []" and b: "declarationBody d \<noteq> []"
  defines "ps \<equiv> upgrade_loop False (split_dot (declarationBody d)) (split_dot t)"
  shows "upgradeDependencyDeclaration d (Some t) = getVersionConstraints d @ join_dot ps"
    and "split_dot (join_dot ps) = ps"
    and "length ps = min (length (split_dot (declarationBody d))) (length (split_dot t))"
    and "ps \<noteq> []"
proof -
  show "upgradeDependencyDeclaration d (Some t) = getVersionConstraints d @ join_dot ps"
    unfolding ps_def by (rule upgrade_nonempty_body [OF t b])
  show len: "length ps = min (length (split_dot (declarationBody d))) (length (split_dot t))"
    unfolding ps_def by (rule upgrade_loop_length)
  have "0 < min (length (split_dot (declarationBody d))) (length (split_dot t))"
    using split_dot_not_Nil [of "declarationBody d"] split_dot_not_Nil [of t]
    by simp
  then have "0 < length ps" using len by arith
  then show ne: "ps \<noteq> []" by simp
  have "\<forall>p \<in> set ps. CHR ''.'' \<notin> set p"
    using upgrade_loop_set [of False "split_dot (declarationBody d)" "split_dot t"]
      split_dot_no_dot unfolding ps_def by blast
  then show "split_dot (join_dot ps) = ps"
    using ne by (simp add: split_dot_join_dot)
qed

lemma proposed_head:
  assumes t: "t \<noteq> []" and nt: "getVersionConstraints t = []" and b: "declarationBody d \<noteq> []"
  shows "\<exists>x xs. upgrade_loop False (split_dot (declarationBody d)) (split_dot t) = x # xs \<and>
           x \<noteq> [] \<and> \<not> constraintChar (hd x)"
proof -
  let ?cs = "split_dot (declarationBody d)" and ?ls = "split_dot t"
  let ?ps = "upgrade_loop False ?cs ?ls"
  have hb: "\<not> constraintChar (hd (declarationBody d))" by (rule declarationBody_hd [OF b])
  have ht: "\<not> constraintChar (hd t)" by (rule getVersionConstraints_Nil_hd [OF nt t])
  obtain c cs where c: "?cs = c # cs" "c \<noteq> []" "hd c = hd (declarationBody d)"
    using split_dot_hd [OF b] hb constraintChar_dot by metis
  obtain l ls where l: "?ls = l # ls" "l \<noteq> []" "hd l = hd t"
    using split_dot_hd [OF t] ht constraintChar_dot by metis
  have ne: "?ps \<noteq> []" by (rule upgrade_result_shape(4) [OF t b])
  then obtain x xs where x: "?ps = x # xs" by (cases ?ps) auto
  have "?ps ! 0 = ?cs ! 0 \<or> ?ps ! 0 = ?ls ! 0"
    by (rule upgrade_loop_nth) (simp add: c l)
  then have "x = c \<or> x = l" using x c l by simp
  then have "x \<noteq> [] \<and> \<not> constraintChar (hd x)" using c l hb ht by auto
  then show ?thesis using x by simp
qed

lemma upgrade_keeps_prefix:
  assumes t: "t \<noteq> []" and nt: "getVersionConstraints t = []"
  shows "getVersionConstraints (upgradeDependencyDeclaration d (Some t)) = getVersionConstraints d"
proof (cases "declarationBody d = []")
  case True
  then show ?thesis by (simp add: upgrade_empty_body)
next
  case False
  let ?ps = "upgrade_loop False (split_dot (declarationBody d)) (split_dot t)"
  obtain x xs where x: "?ps = x # xs" "x \<noteq> []" "\<not> constraintChar (hd x)"
    using proposed_head [OF t nt False] by blast
  then have "\<not> constraintChar (hd (join_dot ?ps))" using join_dot_hd [of x xs] by simp
  then show ?thesis
    using upgrade_nonempty_body [OF t False] getVersionConstraints_append [of "join_dot ?ps" d]
    by simp
qed

subsection \<open>The predicate and the collection\<close>

lemma isUpgradeable_body:
  "isUpgradeable sv current latest =
     (if \<not> truthy (validRange sv current) \<or> declarationBody current = [] then Inr False
      else (case satisfies sv latest (declarationBody current) of
              Inl e \<Rightarrow> Inl e
            | Inr isLatest \<Rightarrow>
                (case ltr sv latest (declarationBody current) of
                   Inl e \<Rightarrow> Inl e
                 | Inr isBeyond \<Rightarrow> Inr (\<not> isLatest \<and> \<not> isBeyond))))"
  by (simp add: isUpgradeable_def declarationBody_def truthy_def Let_def split: sum.splits)

lemma pick_isUpgradeable_Inr:
  "pick_isUpgradeable sv ps = Inr picked \<Longrightarrow>
   picked = filter (\<lambda>(k, c, l). isUpgradeable sv c l = Inr True) ps"
proof (induction ps arbitrary: picked)
  case Nil
  then show ?case by simp
next
  case (Cons p ps)
  obtain k c l where p: "p = (k, c, l)" by (cases p) auto
  show ?case using Cons p
    by (auto split: sum.splits if_splits)
qed

lemma pick_isUpgradeable_total:
  "\<forall>(k, c, l) \<in> set ps. \<exists>b. isUpgradeable sv c l = Inr b \<Longrightarrow>
   \<exists>picked. pick_isUpgradeable sv ps = Inr picked"
proof (induction ps)
  case Nil
  then show ?case by simp
next
  case (Cons p ps)
  obtain k c l where p: "p = (k, c, l)" by (cases p) auto
  obtain b where "isUpgradeable sv c l = Inr b" using Cons.prems p by auto
  moreover obtain picked where "pick_isUpgradeable sv ps = Inr picked"
    using Cons by auto
  ultimately show ?case using p by simp
qed

text \<open>
  The result of the chain, when it returns: in the order of the current dependencies,
  the names on which the predicate returns true, each with its upgraded declaration.
  It returns when no call of the predicate throws.
\<close>

lemma upgradeDependencies_result:
  "(upgradeDependencies sv cur latest = Inr res \<longrightarrow>
      res = map (\<lambda>(k, c). (k, upgradeDependencyDeclaration c (map_of latest k)))
              (filter (\<lambda>(k, c). isUpgradeable sv c (map_of latest k) = Inr True) cur))
   \<and> ((\<forall>(k, c) \<in> set cur. \<exists>b. isUpgradeable sv c (map_of latest k) = Inr b) \<longrightarrow>
        (\<exists>res. upgradeDependencies sv cur latest = Inr res))"
proof (intro conjI impI)
  let ?pairs = "map (\<lambda>(k, c). (k, c, map_of latest k)) cur"
  assume "upgradeDependencies sv cur latest = Inr res"
  then obtain picked where p: "pick_isUpgradeable sv ?pairs = Inr picked"
    and r: "res = map (\<lambda>(k, c, l). (k, upgradeDependencyDeclaration c l)) picked"
    by (auto simp add: upgradeDependencies_def split: sum.splits)
  have "picked = filter (\<lambda>(k, c, l). isUpgradeable sv c l = Inr True) ?pairs"
    by (rule pick_isUpgradeable_Inr [OF p])
  then show "res = map (\<lambda>(k, c). (k, upgradeDependencyDeclaration c (map_of latest k)))
              (filter (\<lambda>(k, c). isUpgradeable sv c (map_of latest k) = Inr True) cur)"
    using r by (simp add: filter_map comp_def case_prod_unfold)
next
  let ?pairs = "map (\<lambda>(k, c). (k, c, map_of latest k)) cur"
  assume "\<forall>(k, c) \<in> set cur. \<exists>b. isUpgradeable sv c (map_of latest k) = Inr b"
  then have "\<forall>(k, c, l) \<in> set ?pairs. \<exists>b. isUpgradeable sv c l = Inr b" by auto
  then obtain picked where "pick_isUpgradeable sv ?pairs = Inr picked"
    using pick_isUpgradeable_total by blast
  then show "\<exists>res. upgradeDependencies sv cur latest = Inr res"
    by (simp add: upgradeDependencies_def)
qed

subsection \<open>The shape of an upgraded declaration\<close>

lemma upgrade_prefix_body:
  assumes t: "t \<noteq> []"
  shows "\<exists>ps. upgradeDependencyDeclaration d (Some t) = getVersionConstraints d @ join_dot ps \<and>
           split_dot (join_dot ps) = ps \<and>
           length ps = min (length (split_dot (declarationBody d))) (length (split_dot t)) \<and>
           (\<forall>i < length ps. (ps ! i = split_dot (declarationBody d) ! i \<or> ps ! i = split_dot t ! i) \<and>
              (isWildDigit (split_dot (declarationBody d) ! i) \<longrightarrow>
                 ps ! i = split_dot (declarationBody d) ! i))"
proof (cases "declarationBody d = []")
  case True
  have d: "getVersionConstraints d = d"
    using declaration_split [of d] True by (simp add: declarationBody_def)
  have n: "Suc 0 \<le> length (split_dot t)"
    using split_dot_not_Nil [of t] by (cases "split_dot t") auto
  have "upgradeDependencyDeclaration d (Some t) = getVersionConstraints d @ join_dot [[]]"
    using True d by (simp add: upgrade_empty_body)
  moreover have "length [[]::string] = min (length (split_dot (declarationBody d))) (length (split_dot t))"
    using True n by (simp add: min_def)
  ultimately show ?thesis using True
    by (intro exI [of _ "[[]]"]) simp
next
  case False
  let ?cs = "split_dot (declarationBody d)" and ?ls = "split_dot t"
  let ?ps = "upgrade_loop False ?cs ?ls"
  have len: "length ?ps = min (length ?cs) (length ?ls)" by (rule upgrade_loop_length)
  have "\<forall>i < length ?ps. (?ps ! i = ?cs ! i \<or> ?ps ! i = ?ls ! i) \<and>
              (isWildDigit (?cs ! i) \<longrightarrow> ?ps ! i = ?cs ! i)"
    using upgrade_loop_nth [of _ ?cs ?ls False] upgrade_loop_wild [of _ ?cs ?ls False]
    unfolding len by blast
  then show ?thesis
    using upgrade_result_shape(1,2) [OF t False] len
    by (intro exI [of _ ?ps]) simp
qed

subsection \<open>The regular expression of an entry\<close>

lemma regexpSpecial_cases:
  "regexpSpecial c \<Longrightarrow> syntaxCharacter c \<or> c = CHR ''/'' \<or> c = CHR ''-''"
  by (auto simp add: regexpSpecial_def syntaxCharacter_def)

lemma not_regexpSpecial:
  "\<not> regexpSpecial c \<Longrightarrow> c \<noteq> CHR 0x5C \<and> c \<noteq> CHR ''.'' \<and> \<not> syntaxCharacter c"
  by (auto simp add: regexpSpecial_def syntaxCharacter_def)

lemma syntaxCharacter_plain:
  "\<not> syntaxCharacter c \<Longrightarrow> c \<noteq> CHR 0x5C \<and> c \<noteq> CHR ''.''"
  by (auto simp add: syntaxCharacter_def)

lemma compileRegExp_escapeRegexp:
  "compileRegExp (escapeRegexp s @ p) = map_option ((@) (map Lit s)) (compileRegExp p)"
proof (induction s)
  case Nil
  show ?case by (simp add: option.map_ident)
next
  case (Cons c s)
  show ?case
  proof (cases "regexpSpecial c")
    case True
    then show ?thesis
      using regexpSpecial_cases [OF True] Cons
      by (auto simp add: option.map_comp comp_def)
  next
    case False
    then show ?thesis
      using not_regexpSpecial [OF False] Cons
      by (simp add: option.map_comp comp_def)
  qed
qed

lemma compileRegExp_plain:
  "\<forall>c \<in> set name. \<not> syntaxCharacter c \<Longrightarrow>
   compileRegExp (name @ p) = map_option ((@) (map Lit name)) (compileRegExp p)"
proof (induction name)
  case Nil
  show ?case by (simp add: option.map_ident)
next
  case (Cons c name)
  then show ?case
    using syntaxCharacter_plain [of c]
    by (simp add: option.map_comp comp_def)
qed

lemma compileRegExp_quote:
  "compileRegExp (CHR 0x22 # p) = map_option (Cons (Lit (CHR 0x22))) (compileRegExp p)"
  by (simp add: syntaxCharacter_def)

lemma compileRegExp_colon:
  "compileRegExp (CHR '':'' # p) = map_option (Cons (Lit (CHR '':''))) (compileRegExp p)"
  by (simp add: syntaxCharacter_def)

lemma compileRegExp_ws_star:
  "compileRegExp (CHR 0x5C # CHR ''s'' # CHR ''*'' # p) =
     map_option (Cons WhiteSpaceStar) (compileRegExp p)"
  by (simp add: syntaxCharacter_def)

lemma compileRegExp_expression:
  assumes "\<forall>c \<in> set name. \<not> syntaxCharacter c"
  shows "compileRegExp
           (CHR 0x22 # name @ [CHR 0x22, CHR 0x5C, CHR ''s'', CHR ''*'', CHR '':'',
              CHR 0x5C, CHR ''s'', CHR ''*'', CHR 0x22] @ escapeRegexp (old @ [CHR 0x22])) =
         Some (entry_regExp name old)"
proof -
  have "compileRegExp (escapeRegexp (old @ [CHR 0x22])) = Some (map Lit (old @ [CHR 0x22]))"
    using compileRegExp_escapeRegexp [of "old @ [CHR 0x22]" "[]"] by simp
  then show ?thesis
    using assms
    by (simp only: compileRegExp_quote compileRegExp_plain compileRegExp_ws_star
        compileRegExp_colon append_Cons append_Nil option.map entry_regExp_def list.map map_append)
      simp
qed

lemma regExpMatch_literal:
  "regExpMatch (map Lit lit @ ts) s =
     (case expect lit s of None \<Rightarrow> None | Some r \<Rightarrow> regExpMatch ts r)"
  by (induction lit s rule: expect.induct) simp_all

lemma regExpMatch_ws_star:
  "\<not> isWhiteSpace c \<Longrightarrow>
   regExpMatch (WhiteSpaceStar # Lit c # ts) s = regExpMatch (Lit c # ts) (dropWhile isWhiteSpace s)"
  by (induction s) (auto split: option.splits)

lemma regExpMatch_entry: "regExpMatch (entry_regExp name old) s = spec_entry_at name old s"
proof -
  have c: "\<not> isWhiteSpace (CHR '':'')" and q: "\<not> isWhiteSpace (CHR 0x22)"
    by (simp_all add: isWhiteSpace_def)
  have 1: "regExpMatch (WhiteSpaceStar # Lit (CHR '':'') # ts) r =
             (case expect '':'' (dropWhile isWhiteSpace r) of None \<Rightarrow> None
              | Some r' \<Rightarrow> regExpMatch ts r')" for ts r
    using regExpMatch_ws_star [OF c, of ts r] regExpMatch_literal [of "'':''" ts]
    by simp
  have 2: "regExpMatch (WhiteSpaceStar # map Lit (CHR 0x22 # old @ [CHR 0x22])) r =
             expect (CHR 0x22 # old @ [CHR 0x22]) (dropWhile isWhiteSpace r)" for r
    using regExpMatch_ws_star [OF q, of "map Lit (old @ [CHR 0x22])" r]
      regExpMatch_literal [of "CHR 0x22 # old @ [CHR 0x22]" "[]"]
    by (simp split: option.splits)
  show ?thesis
    unfolding entry_regExp_def spec_entry_at_def regExpMatch_literal 1 2 ..
qed

lemma getSubstitution_plain:
  "CHR ''$'' \<notin> set template \<Longrightarrow> getSubstitution m p f template = template"
  by (induction m p f template rule: getSubstitution.induct) auto

lemma replace_from_entry:
  assumes "CHR ''$'' \<notin> set template"
    and "template = CHR 0x22 # name @ [CHR 0x22, CHR '':'', CHR '' ''] @ CHR 0x22 # new @ [CHR 0x22]"
  shows "replace_from (entry_regExp name old) template p s = spec_patch name old new s"
proof (induction s arbitrary: p rule: length_induct)
  case (1 s)
  show ?case
  proof (cases s)
    case Nil
    then show ?thesis
      by (simp add: regExpMatch_entry spec_entry_at_def)
  next
    case (Cons c s')
    show ?thesis
    proof (cases "spec_entry_at name old (c # s')")
      case None
      then show ?thesis using Cons 1 by (simp add: regExpMatch_entry)
    next
      case (Some rest)
      have "length rest < length (c # s')" by (rule spec_entry_at_shorter [OF Some])
      then show ?thesis
        using Cons Some 1 assms
        by (simp add: regExpMatch_entry getSubstitution_plain)
    qed
  qed
qed

lemma replace_from_no_match:
  "\<forall>k \<le> length s. regExpMatch regExp (drop k s) = None \<Longrightarrow>
   replace_from regExp template p s = s"
proof (induction s arbitrary: p)
  case Nil
  then show ?case by simp
next
  case (Cons c s)
  have "regExpMatch regExp (c # s) = None" using Cons.prems by (auto dest: spec [of _ 0])
  moreover have "\<forall>k \<le> length s. regExpMatch regExp (drop k s) = None"
  proof (intro allI impI)
    fix k assume "k \<le> length s"
    then show "regExpMatch regExp (drop k s) = None"
      using Cons.prems by (auto dest: spec [of _ "Suc k"])
  qed
  ultimately show ?case using Cons.IH by simp
qed

lemma updatePackageData_step:
  assumes "\<forall>c \<in> set n. \<not> syntaxCharacter c" and "oldDependency olds n = Some old"
  shows "updatePackageData data olds ((n, w) # rest) =
           updatePackageData
             (replace_from (entry_regExp n old)
                (CHR 0x22 # n @ [CHR 0x22, CHR '':'', CHR '' ''] @ CHR 0x22 # w @ [CHR 0x22]) [] data)
             olds rest"
  using compileRegExp_expression [OF assms(1), of old] assms(2)
  by (simp add: replace_global_def)

lemma dollar_syntaxCharacter: "syntaxCharacter (CHR ''$'')"
  by (simp add: syntaxCharacter_def)

text \<open>
  What the patch does by design, for names without syntax characters and new
  declarations without a dollar, each name with an old declaration \<open>old n\<close>: entry
  after entry, every occurrence of the entry (white space around the colon allowed) is
  rewritten, and all other text stays.
\<close>

lemma updatePackageData_spec:
  "\<forall>(n, w) \<in> set news. (\<forall>c \<in> set n. \<not> syntaxCharacter c) \<and> CHR ''$'' \<notin> set w \<and>
      oldDependency olds n = Some (old n) \<Longrightarrow>
   updatePackageData data olds news =
     Some (foldl (\<lambda>text (n, w). spec_patch n (old n) w text) data news)"
proof (induction news arbitrary: data)
  case Nil
  show ?case by simp
next
  case (Cons e news)
  obtain n w where e: "e = (n, w)" by (cases e) auto
  have plain: "\<forall>c \<in> set n. \<not> syntaxCharacter c" and w: "CHR ''$'' \<notin> set w"
    and o: "oldDependency olds n = Some (old n)"
    using Cons.prems e by auto
  have n: "CHR ''$'' \<notin> set n" using plain dollar_syntaxCharacter by blast
  let ?template = "CHR 0x22 # n @ [CHR 0x22, CHR '':'', CHR '' ''] @ CHR 0x22 # w @ [CHR 0x22]"
  have "CHR ''$'' \<notin> set ?template" using n w by simp
  then have "replace_from (entry_regExp n (old n)) ?template [] data =
      spec_patch n (old n) w data"
    by (rule replace_from_entry) simp
  moreover have "\<forall>(n, w) \<in> set news. (\<forall>c \<in> set n. \<not> syntaxCharacter c) \<and>
      CHR ''$'' \<notin> set w \<and> oldDependency olds n = Some (old n)"
    using Cons.prems by simp
  ultimately show ?case
    using Cons.IH e by (simp only: updatePackageData_step [OF plain o] foldl_Cons case_prod_conv)
qed

lemma updatePackageData_no_occurrence:
  assumes plain: "\<forall>c \<in> set name. \<not> syntaxCharacter c"
    and o: "oldDependency olds name = Some old"
    and none: "\<forall>k \<le> length data. spec_entry_at name old (drop k data) = None"
  shows "updatePackageData data olds [(name, new)] = Some data"
proof -
  have "\<forall>k \<le> length data. regExpMatch (entry_regExp name old) (drop k data) = None"
    using none by (simp add: regExpMatch_entry)
  then have "replace_from (entry_regExp name old)
      (CHR 0x22 # name @ [CHR 0x22, CHR '':'', CHR '' ''] @ CHR 0x22 # new @ [CHR 0x22]) [] data = data"
    by (rule replace_from_no_match)
  then show ?thesis
    by (simp only: updatePackageData_step [OF plain o] updatePackageData.simps(1))
qed

subsection \<open>Runs of the source's examples and of two edge cases\<close>

text \<open>Without a target the declaration is returned as it is.\<close>

lemma upgrade_without_target:
  "upgradeDependencyDeclaration d None = d \<and> upgradeDependencyDeclaration d (Some []) = d"
  by (simp add: upgradeDependencyDeclaration_def)

lemma upgrade_examples:
  "upgradeDependencyDeclaration ''1.2.x'' (Some ''1.3.2'') = ''1.3.x''"
  "upgradeDependencyDeclaration ''1.x.1'' (Some ''2.0.1'') = ''2.x.1''"
  "upgradeDependencyDeclaration ''>=1.2.0'' (Some ''1.5.0'') = ''>=1.5.0''"
  "upgradeDependencyDeclaration ''2.0.0'' (Some ''1.9.0'') = ''1.9.0''"
  by code_simp+

text \<open>
  A target that is no version but begins with a constraint character puts that
  character into the first component of the result, where the next upgrade reads it
  as part of the prefix.
\<close>

lemma upgrade_prefixed_target:
  "upgradeDependencyDeclaration ''1.2'' (Some ''v2.0'') = ''v2.0''"
  "upgradeDependencyDeclaration ''v2.0'' (Some ''v2.0'') = ''vv2.0''"
  by code_simp+

text \<open>
  The expression has \<^verbatim>\<open>\s*\<close> on both sides of the colon: an entry written with other
  white space than the replacement's is found and rewritten.
\<close>

lemma updatePackageData_white_space:
  \<open>updatePackageData ''{"a" : "1"}'' [(''a'', ''1'')] [(''a'', ''2'')] = Some ''{"a": "2"}''\<close>
  by code_simp

section \<open>The claims\<close>

subsection \<open>C1: a declaration behind the target becomes the target\<close>

text \<open>
  C1. Let the declaration \<open>d\<close> have no constraint prefix and the target \<open>t\<close> be
  non-empty, and let every component of \<open>d\<close> that has a component of \<open>t\<close> at its
  position be numerically at most that component. Then the upgraded declaration is
  \<open>t\<close> cut to the first \<open>min |d| |t|\<close> components, joined with dots. Two numerically
  compared components are never wildcard markers, so the theorem needs no separate
  hypothesis on wildcards.
\<close>

theorem C1_upgrade_is_truncated_target:
  assumes noprefix: "getVersionConstraints d = []"
    and nonempty: "t \<noteq> []"
    and le: "\<forall>i < min (length (split_dot d)) (length (split_dot t)).
               numerically_le (split_dot d ! i) (split_dot t ! i)"
  shows "upgradeDependencyDeclaration d (Some t) =
           join_dot (take (min (length (split_dot d)) (length (split_dot t))) (split_dot t))"
proof -
  have body: "substr d (length (getVersionConstraints d)) (length d) = d"
    using declaration_split [of d] noprefix by simp
  obtain c cs where cs: "split_dot d = c # cs"
    using split_dot_not_Nil [of d] by (cases "split_dot d") auto
  obtain l ls where ls: "split_dot t = l # ls"
    using split_dot_not_Nil [of t] by (cases "split_dot t") auto
  have "numerically_le c l" using le cs ls by auto
  then have c: "c \<noteq> []" by (rule numerically_le_not_Nil)
  have "\<forall>(c, l) \<in> set (zip (split_dot d) (split_dot t)). \<not> isWildDigit c \<and> \<not> isWildDigit l"
  proof (clarify)
    fix a b assume "(a, b) \<in> set (zip (split_dot d) (split_dot t))"
    then obtain i where "i < length (split_dot d)" "i < length (split_dot t)"
      "a = split_dot d ! i" "b = split_dot t ! i"
      by (auto simp add: in_set_zip)
    then have "numerically_le a b" using le by simp
    then show "\<not> isWildDigit a \<and> \<not> isWildDigit b" by (rule numerically_le_not_wild)
  qed
  then have "upgrade_loop False (split_dot d) (split_dot t) =
      take (min (length (split_dot d)) (length (split_dot t))) (split_dot t)"
    by (rule upgrade_loop_no_wild)
  then show ?thesis
    using nonempty noprefix body cs c
    by (simp add: upgradeDependencyDeclaration_def)
qed

theorem C1_upgrade_is_truncated_target_witness:
  "getVersionConstraints ''1.2'' = [] \<and> numerically_le ''1'' ''1'' \<and>
   numerically_le ''2'' ''3'' \<and>
   upgradeDependencyDeclaration ''1.2'' (Some ''1.3.2'') = ''1.3''"
proof -
  have a: "getVersionConstraints ''1.2'' = []" by code_simp
  have s: "split_dot ''1.2'' = [''1'', ''2'']" "split_dot ''1.3.2'' = [''1'', ''3'', ''2'']"
    by simp_all
  have n: "numerically_le ''1'' ''1''" "numerically_le ''2'' ''3''" by code_simp+
  have le: "\<forall>i < min (length (split_dot ''1.2'')) (length (split_dot ''1.3.2'')).
               numerically_le (split_dot ''1.2'' ! i) (split_dot ''1.3.2'' ! i)"
    using n by (simp add: s less_Suc_eq)
  have "upgradeDependencyDeclaration ''1.2'' (Some ''1.3.2'') = ''1.3''"
    using C1_upgrade_is_truncated_target [OF a _ le] by (simp add: s)
  then show ?thesis using a n by simp
qed

subsection \<open>C2: upgrading twice is upgrading once\<close>

text \<open>
  C2. Upgrading the result of an upgrade against the same target gives the same
  string. The target is absent, or a target version in the sense of the data model: a
  string without constraint prefix (the empty string included, on which the upgrade
  returns the declaration). The declaration is any string.
\<close>

theorem C2_upgrade_idempotent:
  "upgradeDependencyDeclaration (upgradeDependencyDeclaration d None) None =
     upgradeDependencyDeclaration d None \<and>
   (getVersionConstraints t = [] \<longrightarrow>
      upgradeDependencyDeclaration (upgradeDependencyDeclaration d (Some t)) (Some t) =
        upgradeDependencyDeclaration d (Some t))"
proof (intro conjI impI)
  show "upgradeDependencyDeclaration (upgradeDependencyDeclaration d None) None =
     upgradeDependencyDeclaration d None"
    by (simp add: upgradeDependencyDeclaration_def)
next
  assume nt: "getVersionConstraints t = []"
  let ?r = "upgradeDependencyDeclaration d (Some t)"
  show "upgradeDependencyDeclaration ?r (Some t) = ?r"
  proof (cases "t = []")
    case True
    then show ?thesis by (simp add: upgradeDependencyDeclaration_def)
  next
    case t: False
    show ?thesis
    proof (cases "declarationBody d = []")
      case True
      then show ?thesis by (simp add: upgrade_empty_body)
    next
      case b: False
      let ?ls = "split_dot t"
      let ?ps = "upgrade_loop False (split_dot (declarationBody d)) ?ls"
      have r: "?r = getVersionConstraints d @ join_dot ?ps"
        by (rule upgrade_result_shape(1) [OF t b])
      have pr: "getVersionConstraints ?r = getVersionConstraints d"
        by (rule upgrade_keeps_prefix [OF t nt])
      have body: "declarationBody ?r = join_dot ?ps"
        using r pr by (simp add: declarationBody_drop)
      have sp: "split_dot (join_dot ?ps) = ?ps" by (rule upgrade_result_shape(2) [OF t b])
      obtain x xs where "?ps = x # xs" "x \<noteq> []"
        using proposed_head [OF t nt b] by blast
      then have "join_dot ?ps \<noteq> []" using join_dot_hd [of x xs] by simp
      then have b': "declarationBody ?r \<noteq> []" using body by simp
      have "upgradeDependencyDeclaration ?r (Some t) =
          getVersionConstraints ?r @ join_dot (upgrade_loop False (split_dot (declarationBody ?r)) ?ls)"
        by (rule upgrade_nonempty_body [OF t b'])
      also have "\<dots> = getVersionConstraints d @ join_dot (upgrade_loop False ?ps ?ls)"
        by (simp add: pr body sp)
      also have "\<dots> = getVersionConstraints d @ join_dot ?ps"
        by (simp add: upgrade_loop_idem)
      finally show ?thesis using r by simp
    qed
  qed
qed

theorem C2_upgrade_idempotent_witness:
  "getVersionConstraints ''1.3.2'' = [] \<and>
   upgradeDependencyDeclaration ''1.2.x'' (Some ''1.3.2'') = ''1.3.x'' \<and>
   upgradeDependencyDeclaration ''1.3.x'' (Some ''1.3.2'') = ''1.3.x''"
proof -
  have a: "getVersionConstraints ''1.3.2'' = []" by code_simp
  have b: "upgradeDependencyDeclaration ''1.2.x'' (Some ''1.3.2'') = ''1.3.x''" by code_simp
  show ?thesis
    using C2_upgrade_idempotent [of "''1.2.x''" "''1.3.2''"] a b by simp
qed

subsection \<open>C3: wildcard components\<close>




subsection \<open>C4: the upgradeability predicate\<close>

text \<open>
  C4. \<open>isUpgradeable\<close> returns true exactly when the current declaration is a valid
  range for the library, its body after the constraint prefix is not empty, the
  target does not satisfy the body and the target is not below it. For a declaration
  that is no valid range it returns false, without calling \<open>satisfies\<close> or \<open>ltr\<close>, so
  nothing can be thrown.
\<close>

theorem C4_isUpgradeable_iff:
  "(isUpgradeable sv current target = Inr True \<longleftrightarrow>
      truthy (validRange sv current) \<and>
      declarationBody current \<noteq> [] \<and>
      satisfies sv target (declarationBody current) = Inr False \<and>
      ltr sv target (declarationBody current) = Inr False)
   \<and> (\<not> truthy (validRange sv current) \<longrightarrow> isUpgradeable sv current target = Inr False)"
  by (auto simp add: isUpgradeable_def declarationBody_def truthy_def Let_def
      split: sum.splits option.splits)

theorem C4_isUpgradeable_iff_witness:
  "isUpgradeable semver_sample ''1.0.0'' (Some ''2.0.0'') = Inr True \<and>
   \<not> truthy (validRange semver_sample ''latest'') \<and>
   isUpgradeable semver_sample ''latest'' (Some ''2.0.0'') = Inr False"
proof -
  have b: "declarationBody ''1.0.0'' = ''1.0.0''" by code_simp
  have v: "truthy (validRange semver_sample ''1.0.0'')"
    by (simp add: semver_sample_def truthy_def)
  have s: "satisfies semver_sample (Some ''2.0.0'') ''1.0.0'' = Inr False"
    "ltr semver_sample (Some ''2.0.0'') ''1.0.0'' = Inr False"
    by (simp_all add: semver_sample_def)
  have n: "\<not> truthy (validRange semver_sample ''latest'')"
    by (simp add: semver_sample_def truthy_def)
  show ?thesis
    using C4_isUpgradeable_iff [of semver_sample "''1.0.0''" "Some ''2.0.0''"]
      C4_isUpgradeable_iff [of semver_sample "''latest''" "Some ''2.0.0''"] b v s n
    by simp
qed

subsection \<open>C5: upgrading a collection\<close>

text \<open>
  C5. The claim has the result hold exactly the names that have a latest version and
  pass the predicate, leave out the names absent from \<open>latestVersions\<close>, and hold
  only entries that differ from their current declaration. The code misses it twice.

  With the current declaration \<^verbatim>\<open>1.2.3-beta\<close> and the latest version
  \<^verbatim>\<open>1.2.3-beta.2\<close> the predicate holds (the version neither satisfies the range nor
  lies below it), and the upgrade compares \<open>1\<close>, \<open>2\<close> and \<open>3-beta\<close> with themselves
  and stops: the entry of the result is the current declaration, which the latest
  version still does not satisfy, against the doc comment of
  \<open>upgradeDependencyDeclaration\<close> (\<^verbatim>\<open>to satisfy the latest version\<close>).

  For a name absent from \<open>latestVersions\<close> the chain hands \<^verbatim>\<open>undefined\<close> to the
  predicate, which has no test for it (\<open>upgradeDependencyDeclaration\<close> begins with
  one): \<^verbatim>\<open>semver.ltr\<close> throws, and there is no result at all.
\<close>

theorem C5_upgradeDependencies_failing_inputs:
  "upgradeDependencies semver_sample [(''a'', ''1.2.3-beta'')] [(''a'', ''1.2.3-beta.2'')] =
     Inr [(''a'', ''1.2.3-beta'')] \<and>
   upgradeDependencies semver_sample [(''a'', ''1.0.0'')] [] = Inl TypeError"
proof -
  have b: "declarationBody ''1.2.3-beta'' = ''1.2.3-beta''" "declarationBody ''1.0.0'' = ''1.0.0''"
    by code_simp+
  have u: "isUpgradeable semver_sample ''1.2.3-beta'' (Some ''1.2.3-beta.2'') = Inr True"
    by (simp add: isUpgradeable_body b truthy_def semver_sample_def)
  have r: "upgradeDependencyDeclaration ''1.2.3-beta'' (Some ''1.2.3-beta.2'') = ''1.2.3-beta''"
    by code_simp
  have t: "isUpgradeable semver_sample ''1.0.0'' None = Inl TypeError"
    by (simp add: isUpgradeable_body b truthy_def semver_sample_def)
  show ?thesis
    by (simp add: upgradeDependencies_def u r t)
qed

subsection \<open>C6: the digit comparison on two spellings of one number\<close>

text \<open>
  C6. The claim has the comparison return 0 for two distinct tokens that denote the
  same integer, as the source's own comment has it (\<^verbatim>\<open>0 if equal\<close>). The code tests
  the tokens for equality as strings: on \<^verbatim>\<open>01\<close> and \<^verbatim>\<open>1\<close> the first test (greater)
  fails, the second (same string, or a wildcard) fails, and the result is -1.
\<close>

theorem C6_versionDigitComparison_01_1: "versionDigitComparison ''01'' ''1'' = - 1"
  by code_simp

subsection \<open>C7: the constraint prefix\<close>

text \<open>
  C7, as stated, has every white space character qualify as a constraint character.
  The test of the loop is \<^verbatim>\<open>isNaN(c) || c === ' '\<close>: white space is the number 0 for
  \<^verbatim>\<open>isNaN\<close>, and only the space is let through by the second disjunct. A tab stops
  the scan as a digit does.
\<close>

theorem C7_counterexample:
  "isWhiteSpace (CHR 0x09) \<and> \<not> isDecimalDigit (CHR 0x09) \<and> \<not> isWildDigit [CHR 0x09] \<and>
   getVersionConstraints [CHR 0x09, CHR ''1''] = []"
  by code_simp

text \<open>
  C7, amended. \<open>getVersionConstraints\<close> returns the longest prefix of characters that
  are neither digits, nor wildcard markers, nor white space other than the space: the
  declaration is the prefix followed by a rest, every character of the prefix is such
  a character, and the rest is empty or begins with a digit, a wildcard marker or a
  white space character other than the space. The operator characters and the space
  qualify: in front of any declaration each of them is added to the prefix.
\<close>

theorem C7_constraint_prefix:
  "(\<exists>rest. d = getVersionConstraints d @ rest \<and>
      (\<forall>c \<in> set (getVersionConstraints d).
         \<not> isDecimalDigit c \<and> \<not> isWildDigit [c] \<and> (isWhiteSpace c \<longrightarrow> c = CHR '' '')) \<and>
      (case rest of
         [] \<Rightarrow> True
       | c # _ \<Rightarrow> isDecimalDigit c \<or> isWildDigit [c] \<or> (isWhiteSpace c \<and> c \<noteq> CHR '' '')))
   \<and> (\<forall>c \<in> set ''<>=~^ ''. getVersionConstraints (c # d) = c # getVersionConstraints d)"
proof -
  let ?rest = "dropWhile constraintChar d"
  have split: "d = getVersionConstraints d @ ?rest"
    by (simp add: getVersionConstraints_takeWhile)
  have inside: "\<forall>c \<in> set (getVersionConstraints d).
         \<not> isDecimalDigit c \<and> \<not> isWildDigit [c] \<and> (isWhiteSpace c \<longrightarrow> c = CHR '' '')"
  proof
    fix c assume "c \<in> set (getVersionConstraints d)"
    then have "constraintChar c"
      by (auto simp add: getVersionConstraints_takeWhile dest: set_takeWhileD)
    then show "\<not> isDecimalDigit c \<and> \<not> isWildDigit [c] \<and> (isWhiteSpace c \<longrightarrow> c = CHR '' '')"
      by (simp add: constraintChar_iff isWildDigit_single)
  qed
  have stop: "case ?rest of
         [] \<Rightarrow> True
       | c # _ \<Rightarrow> isDecimalDigit c \<or> isWildDigit [c] \<or> (isWhiteSpace c \<and> c \<noteq> CHR '' '')"
  proof (cases ?rest)
    case Nil
    then show ?thesis by (simp only: list.case)
  next
    case (Cons c r)
    then have "\<not> constraintChar c" using hd_dropWhile [of constraintChar d] by simp
    then have "isDecimalDigit c \<or> isWildDigit [c] \<or> (isWhiteSpace c \<and> c \<noteq> CHR '' '')"
      by (auto simp add: constraintChar_iff isWildDigit_single)
    then show ?thesis by (simp only: Cons list.case)
  qed
  have ops: "\<forall>c \<in> set ''<>=~^ ''. getVersionConstraints (c # d) = c # getVersionConstraints d"
  proof
    fix c assume "c \<in> set ''<>=~^ ''"
    then have "constraintChar c"
      by (auto simp add: constraintChar_iff isDecimalDigit_def isWhiteSpace_def)
    then show "getVersionConstraints (c # d) = c # getVersionConstraints d"
      by (simp add: getVersionConstraints_takeWhile)
  qed
  show ?thesis using split inside stop ops by blast
qed

theorem C7_constraint_prefix_witness:
  "getVersionConstraints ''>= 1.2.x'' = ''>= '' \<and> getVersionConstraints '' x'' = '' ''"
proof -
  have a: "getVersionConstraints ''1.2.x'' = []" "getVersionConstraints ''x'' = []" by code_simp+
  show ?thesis
    using C7_constraint_prefix [of "''1.2.x''"] C7_constraint_prefix [of "'' 1.2.x''"]
      C7_constraint_prefix [of "''= 1.2.x''"] C7_constraint_prefix [of "''x''"] a
    by simp
qed

subsection \<open>C8: declarations that are all constraint\<close>

text \<open>
  C8. A declaration whose body is empty after the constraint prefix is returned
  unchanged by the upgrade, for every target (absent and empty included), and
  \<open>isUpgradeable\<close> returns false on it, whatever the library answers.
\<close>

theorem C8_constraint_only:
  assumes "declarationBody d = []"
  shows "upgradeDependencyDeclaration d t = d \<and> isUpgradeable sv d t = Inr False"
proof -
  have "getVersionConstraints d = d"
    using declaration_split [of d] assms by (simp add: declarationBody_def)
  then show ?thesis using assms
    by (simp add: upgradeDependencyDeclaration_def isUpgradeable_def declarationBody_def
        truthy_def split: option.splits)
qed

theorem C8_constraint_only_witness:
  "declarationBody ''latest'' = [] \<and>
   upgradeDependencyDeclaration ''latest'' (Some ''2.0.0'') = ''latest'' \<and>
   isUpgradeable semver_sample ''latest'' (Some ''2.0.0'') = Inr False"
proof -
  have b: "declarationBody ''latest'' = []" by code_simp
  show ?thesis
    using C8_constraint_only [OF b, of "Some ''2.0.0''" semver_sample] b by simp
qed

subsection \<open>C9: the manifest patch\<close>

text \<open>
  C9. The claim has \<open>updatePackageData\<close> replace exactly the occurrences of the
  literal entry of a name and leave all other text unchanged. The expression is built
  from the name as it is and from the old declaration after \<open>escapeRegexp\<close>: only the
  second operand is escaped. The dot of \<^verbatim>\<open>socket.io\<close> stands for any character, so
  the entry of the package \<^verbatim>\<open>socket-io\<close>, whose declaration is not to change, is
  found too, and is rewritten under the name \<^verbatim>\<open>socket.io\<close>.
\<close>

theorem C9_updatePackageData_dotted_name:
  \<open>updatePackageData ''{"socket-io": "1.0.0", "socket.io": "1.0.0"}''
     [(''socket-io'', ''1.0.0''), (''socket.io'', ''1.0.0'')] [(''socket.io'', ''2.0.0'')] =
   Some ''{"socket.io": "2.0.0", "socket.io": "2.0.0"}''\<close>
  by code_simp

subsection \<open>C10: the components of the result\<close>

text \<open>
  C10. For a non-empty target, the result begins with the declaration's constraint
  prefix; what follows the prefix has exactly \<open>min m n\<close> components, where \<open>m\<close> and
  \<open>n\<close> count the components of the declaration's body and of the target; and each of
  them is the declaration's or the target's component at its position. When the
  target has no constraint prefix, what follows is also the body of the result as
  \<open>getVersionConstraints\<close> cuts it.
\<close>

theorem C10_result_components:
  assumes t: "t \<noteq> []"
  shows "take (length (getVersionConstraints d)) (upgradeDependencyDeclaration d (Some t)) =
           getVersionConstraints d \<and>
         length (split_dot (drop (length (getVersionConstraints d))
                   (upgradeDependencyDeclaration d (Some t)))) =
           min (length (split_dot (declarationBody d))) (length (split_dot t)) \<and>
         (\<forall>i < min (length (split_dot (declarationBody d))) (length (split_dot t)).
            split_dot (drop (length (getVersionConstraints d))
                (upgradeDependencyDeclaration d (Some t))) ! i = split_dot (declarationBody d) ! i \<or>
            split_dot (drop (length (getVersionConstraints d))
                (upgradeDependencyDeclaration d (Some t))) ! i = split_dot t ! i) \<and>
         (getVersionConstraints t = [] \<longrightarrow>
            declarationBody (upgradeDependencyDeclaration d (Some t)) =
              drop (length (getVersionConstraints d)) (upgradeDependencyDeclaration d (Some t)))"
proof -
  obtain ps where ps: "upgradeDependencyDeclaration d (Some t) = getVersionConstraints d @ join_dot ps"
    "split_dot (join_dot ps) = ps"
    "length ps = min (length (split_dot (declarationBody d))) (length (split_dot t))"
    "\<forall>i < length ps. (ps ! i = split_dot (declarationBody d) ! i \<or> ps ! i = split_dot t ! i) \<and>
              (isWildDigit (split_dot (declarationBody d) ! i) \<longrightarrow>
                 ps ! i = split_dot (declarationBody d) ! i)"
    using upgrade_prefix_body [OF t] by blast
  have body: "drop (length (getVersionConstraints d)) (upgradeDependencyDeclaration d (Some t)) =
      join_dot ps"
    by (simp add: ps(1))
  have own: "getVersionConstraints t = [] \<longrightarrow>
            declarationBody (upgradeDependencyDeclaration d (Some t)) =
              drop (length (getVersionConstraints d)) (upgradeDependencyDeclaration d (Some t))"
    by (simp add: declarationBody_drop upgrade_keeps_prefix [OF t])
  show ?thesis
    unfolding body using ps(2,3,4) own
    by (simp add: ps(1) body)
qed

theorem C10_result_components_witness:
  "getVersionConstraints ''1.3.2'' = [] \<and>
   upgradeDependencyDeclaration ''>=1.2.x.4'' (Some ''1.3.2'') = ''>=1.3.x'' \<and>
   length (split_dot (declarationBody ''>=1.3.x'')) = 3"
proof -
  have a: "getVersionConstraints ''1.3.2'' = []" by code_simp
  have b: "upgradeDependencyDeclaration ''>=1.2.x.4'' (Some ''1.3.2'') = ''>=1.3.x''" by code_simp
  have c: "getVersionConstraints ''>=1.2.x.4'' = ''>=''" by code_simp
  have d: "declarationBody ''>=1.2.x.4'' = ''1.2.x.4''" by code_simp
  have "declarationBody (upgradeDependencyDeclaration ''>=1.2.x.4'' (Some ''1.3.2'')) =
      drop (length (getVersionConstraints ''>=1.2.x.4''))
        (upgradeDependencyDeclaration ''>=1.2.x.4'' (Some ''1.3.2'')) \<and>
    length (split_dot (drop (length (getVersionConstraints ''>=1.2.x.4''))
                   (upgradeDependencyDeclaration ''>=1.2.x.4'' (Some ''1.3.2'')))) =
           min (length (split_dot (declarationBody ''>=1.2.x.4''))) (length (split_dot ''1.3.2''))"
    using C10_result_components [of "''1.3.2''" "''>=1.2.x.4''"] a by simp
  then show ?thesis using a b by (simp add: c d)
qed

end
